theory Spec2Isabelle
  imports Complex_Main
begin

section \<open>Numeric model\<close>

text \<open>
  The program computes with C++ \<open>float\<close> and 32-bit \<open>int\<close>. A \<open>float\<close> is read here as an
  exact real number: rounding, infinities and NaN are not modelled, and \<open>std::floor\<close> and
  \<open>std::ceil\<close> are the floor and ceiling of the reals. An \<open>int\<close> is an integer from
  \<open>INT_MIN\<close> to \<open>INT_MAX\<close>.
\<close>

definition INT_MIN :: int where
  "INT_MIN = - (2 ^ 31)"

definition INT_MAX :: int where
  "INT_MAX = 2 ^ 31 - 1"

text \<open>
  Addition and multiplication of \<open>int\<close> in the tile loop: the two's complement result the
  machine computes (C++ leaves signed overflow undefined).
\<close>

definition wrap32 :: "int \<Rightarrow> int" where
  "wrap32 n = (n + 2 ^ 31) mod 2 ^ 32 - 2 ^ 31"

definition TILE_SIZE :: int where
  "TILE_SIZE = 16"

definition MAP_WIDTH :: int where
  "MAP_WIDTH = 10000"

definition MAP_HEIGHT :: int where
  "MAP_HEIGHT = 10000"

definition TILES_PER_ROW :: int where
  "TILES_PER_ROW = 8"

definition MIN_VISIBLE_PIXELS :: real where
  "MIN_VISIBLE_PIXELS = 4"

text \<open>The integer nearest to \<open>x\<close> between 0 and \<open>x\<close>: \<open>x\<close> with its fractional part discarded.\<close>

definition trunc_zero :: "real \<Rightarrow> int" where
  "trunc_zero x = (if 0 \<le> x then \<lfloor>x\<rfloor> else \<lceil>x\<rceil>)"

text \<open>
  \<open>(int)x\<close> for a float \<open>x\<close>: the fractional part is discarded. Where the result does not
  fit an \<open>int\<close>, C++ leaves the conversion undefined; the conversion instruction of
  x86-64 then yields \<open>INT_MIN\<close>, and that is the value taken here.
\<close>

definition int_cast :: "real \<Rightarrow> int" where
  "int_cast x =
     (if INT_MIN \<le> trunc_zero x \<and> trunc_zero x \<le> INT_MAX then trunc_zero x else INT_MIN)"

section \<open>Level of detail: the stride of the tile loop\<close>

text \<open>
  \<^verbatim>\<open>float pixelsPerTile = TILE_SIZE * zoom;\<close>
  \<^verbatim>\<open>int step = std::max(1, (int)std::ceil(MIN_VISIBLE_PIXELS / pixelsPerTile));\<close>
\<close>

definition pixelsPerTile :: "real \<Rightarrow> real" where
  "pixelsPerTile z = of_int TILE_SIZE * z"

definition lod_step :: "real \<Rightarrow> int" where
  "lod_step z = max 1 (int_cast (of_int \<lceil>MIN_VISIBLE_PIXELS / pixelsPerTile z\<rceil>))"

text \<open>The stride as section 4.2, step 4 of the specification words it.\<close>

definition spec_step :: "real \<Rightarrow> real \<Rightarrow> real \<Rightarrow> int" where
  "spec_step tile_size min_visible z = max 1 \<lceil>min_visible / (tile_size * z)\<rceil>"

section \<open>View state\<close>

text \<open>
  The fields of \<open>TilemapWindow\<close> that the event handlers and \<open>draw\<close> read and write;
  \<open>canvas_w\<close> and \<open>canvas_h\<close> are the widget's \<open>w()\<close> and \<open>h()\<close>. The texture handle and
  the frame counter play no part in culling, picking or scrolling and are left out.
\<close>

record TilemapWindow =
  offsetX :: real
  offsetY :: real
  zoom :: real
  lastMouseX :: int
  lastMouseY :: int
  dragging :: bool
  hoveredX :: int
  hoveredY :: int
  canvas_w :: int
  canvas_h :: int

text \<open>
  An \<open>Fl_Scrollbar\<close> is a widget of the toolkit. The model keeps the four numbers that
  \<open>Fl_Scrollbar::value(pos, size, first, total)\<close> is called with.
\<close>

record Fl_Scrollbar =
  sb_value :: int
  sb_size :: int
  sb_first :: int
  sb_total :: int

record TilemapScrollView =
  canvas :: TilemapWindow
  hscroll :: Fl_Scrollbar
  vscroll :: Fl_Scrollbar

section \<open>Viewport culling in \<open>TilemapWindow::draw\<close>\<close>

text \<open>
  \<^verbatim>\<open>float invZoom = 1.0f / zoom;\<close>
  \<^verbatim>\<open>float viewLeft = -offsetX * invZoom;  float viewTop = -offsetY * invZoom;\<close>
  \<^verbatim>\<open>float viewRight = (w() - offsetX) * invZoom;  float viewBottom = (h() - offsetY) * invZoom;\<close>
\<close>

definition view_bounds :: "real \<Rightarrow> real \<Rightarrow> real \<Rightarrow> int \<Rightarrow> int \<Rightarrow> real \<times> real \<times> real \<times> real" where
  "view_bounds ox oy z w h =
     (let invZoom = 1 / z;
          viewLeft = - ox * invZoom;
          viewTop = - oy * invZoom;
          viewRight = (of_int w - ox) * invZoom;
          viewBottom = (of_int h - oy) * invZoom
      in (viewLeft, viewTop, viewRight, viewBottom))"

text \<open>
  \<^verbatim>\<open>int tileX0 = std::max(0, (int)std::floor(viewLeft / TILE_SIZE));\<close>
  \<^verbatim>\<open>int tileY0 = std::max(0, (int)std::floor(viewTop / TILE_SIZE));\<close>
  \<^verbatim>\<open>int tileX1 = std::min(MAP_WIDTH,  (int)std::ceil(viewRight / TILE_SIZE));\<close>
  \<^verbatim>\<open>int tileY1 = std::min(MAP_HEIGHT, (int)std::ceil(viewBottom / TILE_SIZE));\<close>
  The result is \<open>(tileX0, tileY0, tileX1, tileY1)\<close>.
\<close>

definition visible_range :: "real \<Rightarrow> real \<Rightarrow> real \<Rightarrow> int \<Rightarrow> int \<Rightarrow> int \<times> int \<times> int \<times> int" where
  "visible_range ox oy z w h =
     (case view_bounds ox oy z w h of (viewLeft, viewTop, viewRight, viewBottom) \<Rightarrow>
        (max 0 (int_cast (of_int \<lfloor>viewLeft / of_int TILE_SIZE\<rfloor>)),
         max 0 (int_cast (of_int \<lfloor>viewTop / of_int TILE_SIZE\<rfloor>)),
         min MAP_WIDTH (int_cast (of_int \<lceil>viewRight / of_int TILE_SIZE\<rceil>)),
         min MAP_HEIGHT (int_cast (of_int \<lceil>viewBottom / of_int TILE_SIZE\<rceil>))))"

text \<open>
  \<^verbatim>\<open>for (int x = tileX0; x < tileX1; x += step)\<close>: the indices the inner loop visits, in
  order. \<open>None\<close> is a loop that does not end.
\<close>

partial_function (option) loop_range :: "int \<Rightarrow> int \<Rightarrow> int \<Rightarrow> int list option" where
  "loop_range x tileX1 step =
     (if x < tileX1
      then Option.bind (loop_range (wrap32 (x + step)) tileX1 step) (\<lambda>rest. Some (x # rest))
      else Some [])"

text \<open>
  \<^verbatim>\<open>for (int y = tileY0; y < tileY1; y += step)\<close> around the inner loop: the cells
  \<open>(x, y)\<close> in the order \<open>drawTile\<close> is called for them.
\<close>

partial_function (option) tile_rows ::
  "int \<Rightarrow> int \<Rightarrow> int \<Rightarrow> int \<Rightarrow> int \<Rightarrow> (int \<times> int) list option" where
  "tile_rows y tileY1 tileX0 tileX1 step =
     (if y < tileY1
      then Option.bind (loop_range tileX0 tileX1 step) (\<lambda>xs.
           Option.bind (tile_rows (wrap32 (y + step)) tileY1 tileX0 tileX1 step) (\<lambda>rest.
           Some (map (\<lambda>x. (x, y)) xs @ rest)))
      else Some [])"

definition tile_loop :: "int \<times> int \<times> int \<times> int \<Rightarrow> int \<Rightarrow> (int \<times> int) list option" where
  "tile_loop r step =
     (case r of (tileX0, tileY0, tileX1, tileY1) \<Rightarrow> tile_rows tileY0 tileY1 tileX0 tileX1 step)"

text \<open>
  The calls \<open>drawTile(tileMap[y][x], x * TILE_SIZE, y * TILE_SIZE, TILE_SIZE * step)\<close> of
  one frame, for the tile map \<open>tm\<close> (read as \<open>tm y x\<close>).
\<close>

definition draw_tiles ::
  "(int \<Rightarrow> int \<Rightarrow> int) \<Rightarrow> real \<Rightarrow> real \<Rightarrow> real \<Rightarrow> int \<Rightarrow> int \<Rightarrow> (int \<times> int \<times> int \<times> int) list option" where
  "draw_tiles tm ox oy z w h =
     (let step = lod_step z
      in map_option
           (map (\<lambda>(x, y). (tm y x, wrap32 (x * TILE_SIZE), wrap32 (y * TILE_SIZE),
                           wrap32 (TILE_SIZE * step))))
           (tile_loop (visible_range ox oy z w h) step))"

text \<open>
  \<^verbatim>\<open>if (hoveredX >= 0 && hoveredY >= 0)\<close>: the outline of the hovered tile, given by its
  corner \<open>(tx, ty)\<close>, or no outline.
\<close>

definition hover_outline :: "TilemapWindow \<Rightarrow> (int \<times> int) option" where
  "hover_outline s =
     (if hoveredX s \<ge> 0 \<and> hoveredY s \<ge> 0
      then Some (hoveredX s * TILE_SIZE, hoveredY s * TILE_SIZE) else None)"

text \<open>
  The render transform of \<open>draw\<close>, \<open>glTranslatef(offsetX, offsetY, 0)\<close> followed by
  \<open>glScalef(zoom, zoom, 1)\<close>, sends the world coordinate \<open>p\<close> to the screen coordinate
  \<open>offset + zoom * p\<close>.
\<close>

definition worldToScreen :: "real \<Rightarrow> real \<Rightarrow> real \<Rightarrow> real" where
  "worldToScreen offset z p = offset + z * p"

text \<open>
  The quad of tile \<open>(tx, ty)\<close> has the world corners \<open>(tx * TILE_SIZE, ty * TILE_SIZE)\<close> and
  \<open>((tx + 1) * TILE_SIZE, (ty + 1) * TILE_SIZE)\<close>. It intersects the viewport
  \<open>[0, w] \<times> [0, h]\<close> when the two rectangles share area on the screen.
\<close>

definition quad_intersects_viewport :: "real \<Rightarrow> real \<Rightarrow> real \<Rightarrow> int \<Rightarrow> int \<Rightarrow> int \<Rightarrow> int \<Rightarrow> bool" where
  "quad_intersects_viewport ox oy z w h tx ty \<longleftrightarrow>
     worldToScreen ox z (of_int (tx * TILE_SIZE)) < of_int w \<and>
     0 < worldToScreen ox z (of_int ((tx + 1) * TILE_SIZE)) \<and>
     worldToScreen oy z (of_int (ty * TILE_SIZE)) < of_int h \<and>
     0 < worldToScreen oy z (of_int ((ty + 1) * TILE_SIZE))"

text \<open>
  The tile coordinate \<open>p * invZoom / TILE_SIZE\<close> of a screen distance \<open>p\<close> from the origin
  of the grid: the argument of \<open>std::floor\<close> and \<open>std::ceil\<close> in \<open>draw\<close>.
\<close>

definition tile_coord :: "real \<Rightarrow> real \<Rightarrow> real" where
  "tile_coord p z = p * (1 / z) / of_int TILE_SIZE"

text \<open>
  A bound on the number of \<open>drawTile\<close> calls of one frame, from the viewport size and
  \<open>MIN_VISIBLE_PIXELS\<close> alone.
\<close>

definition draw_call_bound :: "int \<Rightarrow> int \<Rightarrow> nat" where
  "draw_call_bound w h =
     nat ((\<lfloor>of_int w / MIN_VISIBLE_PIXELS\<rfloor> + 2) * (\<lfloor>of_int h / MIN_VISIBLE_PIXELS\<rfloor> + 2))"


definition in_range :: "int \<times> int \<times> int \<times> int \<Rightarrow> int \<Rightarrow> int \<Rightarrow> bool" where
  "in_range r x y \<longleftrightarrow>
     (case r of (tileX0, tileY0, tileX1, tileY1) \<Rightarrow>
        tileX0 \<le> x \<and> x < tileX1 \<and> tileY0 \<le> y \<and> y < tileY1)"

definition on_grid :: "int \<Rightarrow> int \<Rightarrow> bool" where
  "on_grid x y \<longleftrightarrow> 0 \<le> x \<and> x < MAP_WIDTH \<and> 0 \<le> y \<and> y < MAP_HEIGHT"

section \<open>Pointer picking and the event handlers\<close>

text \<open>
  \<^verbatim>\<open>float fx = (mouseX - offsetX) / zoom;\<close> is the world coordinate under a screen
  coordinate; the wheel handler computes \<open>worldX\<close> by the same expression.
\<close>

definition screenToWorld :: "TilemapWindow \<Rightarrow> int \<Rightarrow> int \<Rightarrow> real \<times> real" where
  "screenToWorld s sx sy =
     ((of_int sx - offsetX s) / zoom s, (of_int sy - offsetY s) / zoom s)"

definition updateHoveredTile :: "TilemapWindow \<Rightarrow> int \<Rightarrow> int \<Rightarrow> TilemapWindow" where
  "updateHoveredTile s mouseX mouseY =
     (let fx = (of_int mouseX - offsetX s) / zoom s;
          fy = (of_int mouseY - offsetY s) / zoom s;
          tileX = int_cast (fx / of_int TILE_SIZE);
          tileY = int_cast (fy / of_int TILE_SIZE)
      in if tileX \<ge> 0 \<and> tileY \<ge> 0 \<and> tileX < MAP_WIDTH \<and> tileY < MAP_HEIGHT
         then s\<lparr>hoveredX := tileX, hoveredY := tileY\<rparr>
         else s\<lparr>hoveredX := - 1, hoveredY := - 1\<rparr>)"

text \<open>
  The body of \<open>case FL_MOUSEWHEEL\<close> for a given \<open>zoomFactor\<close>, up to the call of
  \<open>updateScrollbars\<close>.
\<close>

definition wheel_zoom :: "TilemapWindow \<Rightarrow> int \<Rightarrow> int \<Rightarrow> real \<Rightarrow> TilemapWindow" where
  "wheel_zoom s mx my zoomFactor =
     (let worldX = (of_int mx - offsetX s) / zoom s;
          worldY = (of_int my - offsetY s) / zoom s;
          zoom' = zoom s * zoomFactor
      in s\<lparr>zoom := zoom',
            offsetX := of_int mx - worldX * zoom',
            offsetY := of_int my - worldY * zoom'\<rparr>)"

text \<open>\<^verbatim>\<open>float zoomFactor = (Fl::event_dy() > 0) ? 0.9f : 1.1f;\<close>\<close>

definition wheel_factor :: "int \<Rightarrow> real" where
  "wheel_factor dy = (if dy > 0 then 9 / 10 else 11 / 10)"

text \<open>
  \<^verbatim>\<open>hscroll->value((int)-canvas->offsetX, viewW, 0, std::max(viewW, contentW));\<close>
  and the same for \<open>vscroll\<close>.
\<close>

definition updateScrollbars :: "TilemapScrollView \<Rightarrow> TilemapScrollView" where
  "updateScrollbars v =
     (let contentW = int_cast (of_int (MAP_WIDTH * TILE_SIZE) * zoom (canvas v));
          contentH = int_cast (of_int (MAP_HEIGHT * TILE_SIZE) * zoom (canvas v));
          viewW = canvas_w (canvas v);
          viewH = canvas_h (canvas v)
      in v\<lparr>hscroll := \<lparr>sb_value = int_cast (- offsetX (canvas v)), sb_size = viewW,
                         sb_first = 0, sb_total = max viewW contentW\<rparr>,
            vscroll := \<lparr>sb_value = int_cast (- offsetY (canvas v)), sb_size = viewH,
                         sb_first = 0, sb_total = max viewH contentH\<rparr>\<rparr>)"

text \<open>
  The events \<open>TilemapWindow::handle\<close> distinguishes, with the values it reads from
  \<open>Fl::event_button()\<close>, \<open>Fl::event_x()\<close>, \<open>Fl::event_y()\<close> and \<open>Fl::event_dy()\<close>. Every other
  event goes to \<open>Fl_Gl_Window::handle\<close>, which touches none of the fields above.
\<close>

datatype event =
    FL_PUSH int int int
  | FL_DRAG int int
  | FL_RELEASE
  | FL_MOUSEWHEEL int int int
  | FL_MOVE int int
  | FL_OTHER

definition FL_LEFT_MOUSE :: int where
  "FL_LEFT_MOUSE = 1"

text \<open>
  \<open>handle\<close> on the canvas of a scroll view: \<open>parentView\<close> is set by the constructor of
  \<open>TilemapScrollView\<close>, the only place a \<open>TilemapWindow\<close> is made.
\<close>

fun handle :: "TilemapScrollView \<Rightarrow> event \<Rightarrow> TilemapScrollView" where
  "handle v (FL_PUSH button x y) =
     (if button = FL_LEFT_MOUSE
      then v\<lparr>canvas := (canvas v)\<lparr>dragging := True, lastMouseX := x, lastMouseY := y\<rparr>\<rparr>
      else v)"
| "handle v (FL_DRAG x y) =
     (if dragging (canvas v)
      then (let dx = x - lastMouseX (canvas v);
                dy = y - lastMouseY (canvas v)
            in updateScrollbars
                 (v\<lparr>canvas := (canvas v)\<lparr>offsetX := offsetX (canvas v) + of_int dx,
                                         offsetY := offsetY (canvas v) + of_int dy,
                                         lastMouseX := x, lastMouseY := y\<rparr>\<rparr>))
      else v)"
| "handle v FL_RELEASE = v\<lparr>canvas := (canvas v)\<lparr>dragging := False\<rparr>\<rparr>"
| "handle v (FL_MOUSEWHEEL mx my dy) =
     updateScrollbars (v\<lparr>canvas := wheel_zoom (canvas v) mx my (wheel_factor dy)\<rparr>)"
| "handle v (FL_MOVE x y) = v\<lparr>canvas := updateHoveredTile (canvas v) x y\<rparr>"
| "handle v FL_OTHER = v"

text \<open>
  The scrollbar callbacks: \<^verbatim>\<open>view->canvas->offsetX = -view->hscroll->value();\<close>
\<close>

definition hscroll_callback :: "TilemapScrollView \<Rightarrow> TilemapScrollView" where
  "hscroll_callback v = v\<lparr>canvas := (canvas v)\<lparr>offsetX := - of_int (sb_value (hscroll v))\<rparr>\<rparr>"

definition vscroll_callback :: "TilemapScrollView \<Rightarrow> TilemapScrollView" where
  "vscroll_callback v = v\<lparr>canvas := (canvas v)\<lparr>offsetY := - of_int (sb_value (vscroll v))\<rparr>\<rparr>"

text \<open>\<open>TilemapScrollView::resize\<close>: the canvas gets the new size less the scrollbars' 16 pixels.\<close>

definition resize :: "TilemapScrollView \<Rightarrow> int \<Rightarrow> int \<Rightarrow> int \<Rightarrow> int \<Rightarrow> TilemapScrollView" where
  "resize v X Y W H =
     updateScrollbars (v\<lparr>canvas := (canvas v)\<lparr>canvas_w := W - 16, canvas_h := H - 16\<rparr>\<rparr>)"

text \<open>
  What reaches the view from outside: an event on the canvas, the user moving a scrollbar
  to a position (the toolkit stores the position in the widget and runs the callback), and
  a resize.
\<close>

datatype input =
    Event event
  | HScroll int
  | VScroll int
  | Resize int int int int

fun step :: "TilemapScrollView \<Rightarrow> input \<Rightarrow> TilemapScrollView" where
  "step v (Event e) = handle v e"
| "step v (HScroll p) = hscroll_callback (v\<lparr>hscroll := (hscroll v)\<lparr>sb_value := p\<rparr>\<rparr>)"
| "step v (VScroll p) = vscroll_callback (v\<lparr>vscroll := (vscroll v)\<lparr>sb_value := p\<rparr>\<rparr>)"
| "step v (Resize X Y W H) = resize v X Y W H"

definition run :: "TilemapScrollView \<Rightarrow> input list \<Rightarrow> TilemapScrollView" where
  "run v ins = foldl step v ins"

text \<open>
  The view \<open>main\<close> builds: \<open>TilemapScrollView viewer(0, 0, 800, 600)\<close>, whose canvas is
  \<open>W - 16\<close> by \<open>H - 16\<close> with the members' default values, and whose constructor ends with
  \<open>updateScrollbars()\<close>.
\<close>

definition init_canvas :: TilemapWindow where
  "init_canvas = \<lparr>offsetX = 0, offsetY = 0, zoom = 1, lastMouseX = 0, lastMouseY = 0,
     dragging = False, hoveredX = - 1, hoveredY = - 1, canvas_w = 800 - 16, canvas_h = 600 - 16\<rparr>"

definition init_view :: TilemapScrollView where
  "init_view = updateScrollbars
     \<lparr>canvas = init_canvas,
      hscroll = \<lparr>sb_value = 0, sb_size = 0, sb_first = 0, sb_total = 0\<rparr>,
      vscroll = \<lparr>sb_value = 0, sb_size = 0, sb_first = 0, sb_total = 0\<rparr>\<rparr>"

section \<open>Readings of the state\<close>

text \<open>
  The hover state as a value: \<open>(-1, -1)\<close>, or any pair with a negative component, is
  "none" for \<open>draw\<close>, which outlines a tile only when both components are at least 0.
\<close>

definition hovered :: "TilemapWindow \<Rightarrow> (int \<times> int) option" where
  "hovered s =
     (if hoveredX s \<ge> 0 \<and> hoveredY s \<ge> 0 then Some (hoveredX s, hoveredY s) else None)"

text \<open>
  The pick as section 4.3 of the specification words it: the floor of the world
  coordinate divided by \<open>TILE_SIZE\<close>, and "none" off the grid.
\<close>

definition spec_pick :: "TilemapWindow \<Rightarrow> int \<Rightarrow> int \<Rightarrow> (int \<times> int) option" where
  "spec_pick s sx sy =
     (case screenToWorld s sx sy of (wx, wy) \<Rightarrow>
        (let tx = \<lfloor>wx / of_int TILE_SIZE\<rfloor>; ty = \<lfloor>wy / of_int TILE_SIZE\<rfloor>
         in if on_grid tx ty then Some (tx, ty) else None))"

definition hover_state_ok :: "TilemapWindow \<Rightarrow> bool" where
  "hover_state_ok s \<longleftrightarrow>
     (hoveredX s = - 1 \<and> hoveredY s = - 1) \<or> on_grid (hoveredX s) (hoveredY s)"


text \<open>
  The scrollbar of one axis as section 4.4 of the specification words it, with the
  position and the content extent cut to their integer parts.
\<close>

definition spec_scrollbar :: "real \<Rightarrow> int \<Rightarrow> real \<Rightarrow> Fl_Scrollbar" where
  "spec_scrollbar offset viewportExtent contentExtent =
     \<lparr>sb_value = trunc_zero (- offset), sb_size = viewportExtent, sb_first = 0,
      sb_total = max viewportExtent (trunc_zero contentExtent)\<rparr>"

section \<open>Conversions\<close>

lemma trunc_zero_of_int: "trunc_zero (of_int k) = k"
  by (simp add: trunc_zero_def)

lemma int_cast_of_int:
  "int_cast (of_int k) = (if INT_MIN \<le> k \<and> k \<le> INT_MAX then k else INT_MIN)"
  by (simp add: int_cast_def trunc_zero_of_int)

lemma int_cast_numeral:
  "int_cast (numeral n) = (if (numeral n :: int) \<le> INT_MAX then numeral n else INT_MIN)"
  using int_cast_of_int [of "numeral n"] by (simp add: INT_MIN_def)

lemma int_cast_neg_numeral:
  "int_cast (- numeral n) = (if INT_MIN \<le> (- numeral n :: int) then - numeral n else INT_MIN)"
  using int_cast_of_int [of "- numeral n"] by (simp add: INT_MAX_def)

lemma int_cast_0_1: "int_cast 0 = 0" "int_cast 1 = 1"
  using int_cast_of_int [of 0] int_cast_of_int [of 1] by (simp_all add: INT_MIN_def INT_MAX_def)

lemmas int_cast_num = int_cast_numeral int_cast_neg_numeral int_cast_0_1 INT_MIN_def INT_MAX_def

lemma int_cast_fits: "INT_MIN \<le> k \<Longrightarrow> k \<le> INT_MAX \<Longrightarrow> int_cast (of_int k) = k"
  by (simp add: int_cast_of_int)

lemma int_cast_trunc:
  "- (2 ^ 31) < x \<Longrightarrow> x < 2 ^ 31 \<Longrightarrow> int_cast x = trunc_zero x"
proof -
  assume lo: "- (2 ^ 31) < x" and hi: "x < 2 ^ 31"
  have "\<lfloor>x\<rfloor> \<le> 2 ^ 31 - 1"
  proof -
    from hi have "\<lfloor>x\<rfloor> < 2 ^ 31"
      by (simp add: floor_less_iff)
    then show ?thesis by simp
  qed
  moreover have "- (2 ^ 31) \<le> \<lceil>x\<rceil>"
  proof -
    from lo have "of_int (- (2 ^ 31)) < x"
      by simp
    then have "- (2 ^ 31) < \<lceil>x\<rceil>"
      by (simp only: less_ceiling_iff)
    then show ?thesis by simp
  qed
  moreover have "\<lfloor>x\<rfloor> \<le> \<lceil>x\<rceil>"
    by linarith
  moreover have "0 \<le> x \<Longrightarrow> 0 \<le> \<lfloor>x\<rfloor>" and "\<not> 0 \<le> x \<Longrightarrow> \<lceil>x\<rceil> \<le> 0"
    by (simp_all add: ceiling_le_iff)
  ultimately show ?thesis
    by (auto simp add: int_cast_def trunc_zero_def INT_MIN_def INT_MAX_def)
qed

lemma wrap32_fits: "INT_MIN \<le> n \<Longrightarrow> n \<le> INT_MAX \<Longrightarrow> wrap32 n = n"
  by (simp add: wrap32_def INT_MIN_def INT_MAX_def)

section \<open>The stride\<close>

lemma lod_step_eq: "lod_step z = max 1 (int_cast (of_int \<lceil>1 / (4 * z)\<rceil>))"
proof -
  have "MIN_VISIBLE_PIXELS / pixelsPerTile z = 1 / (4 * z)"
    by (simp add: MIN_VISIBLE_PIXELS_def pixelsPerTile_def TILE_SIZE_def)
  then show ?thesis
    by (simp only: lod_step_def)
qed

lemma lod_step_pos: "1 \<le> lod_step z"
  by (simp add: lod_step_def)

lemma lod_step_le: "lod_step z \<le> INT_MAX"
  by (simp add: lod_step_def int_cast_def INT_MAX_def INT_MIN_def)

text \<open>Scenario B of the specification.\<close>

lemma scenario_B: "pixelsPerTile (5 / 100) = 8 / 10" "lod_step (5 / 100) = 5"
  by (simp_all add: pixelsPerTile_def TILE_SIZE_def lod_step_eq int_cast_num)

text \<open>Where the ceiling fits an \<open>int\<close>, the stride is the specification's.\<close>

lemma lod_step_fits:
  assumes "0 < z" and "\<lceil>MIN_VISIBLE_PIXELS / (of_int TILE_SIZE * z)\<rceil> \<le> INT_MAX"
  shows "lod_step z = spec_step (of_int TILE_SIZE) MIN_VISIBLE_PIXELS z"
proof -
  have "0 \<le> MIN_VISIBLE_PIXELS / (of_int TILE_SIZE * z)"
    using assms(1) by (simp add: MIN_VISIBLE_PIXELS_def TILE_SIZE_def)
  then have "0 \<le> \<lceil>MIN_VISIBLE_PIXELS / (of_int TILE_SIZE * z)\<rceil>"
    by (simp add: ceiling_le_iff le_ceiling_iff)
  then have "INT_MIN \<le> \<lceil>MIN_VISIBLE_PIXELS / (of_int TILE_SIZE * z)\<rceil>"
    by (simp add: INT_MIN_def)
  with assms(2) show ?thesis
    by (simp add: lod_step_def spec_step_def pixelsPerTile_def int_cast_fits)
qed


lemma lod_step_monotone_fits:
  assumes "0 < zoomA" and "zoomA \<le> zoomB"
    and "\<lceil>MIN_VISIBLE_PIXELS / (of_int TILE_SIZE * zoomA)\<rceil> \<le> INT_MAX"
  shows "lod_step zoomB \<le> lod_step zoomA"
proof -
  have "MIN_VISIBLE_PIXELS / (of_int TILE_SIZE * zoomB) \<le> MIN_VISIBLE_PIXELS / (of_int TILE_SIZE * zoomA)"
    using assms(1,2) by (simp add: MIN_VISIBLE_PIXELS_def TILE_SIZE_def frac_le)
  then have "\<lceil>MIN_VISIBLE_PIXELS / (of_int TILE_SIZE * zoomB)\<rceil>
      \<le> \<lceil>MIN_VISIBLE_PIXELS / (of_int TILE_SIZE * zoomA)\<rceil>"
    by (rule ceiling_mono)
  moreover from this assms(3) have "\<lceil>MIN_VISIBLE_PIXELS / (of_int TILE_SIZE * zoomB)\<rceil> \<le> INT_MAX"
    by simp
  moreover have "0 < zoomB"
    using assms(1,2) by simp
  ultimately show ?thesis
    using assms by (simp add: lod_step_fits spec_step_def)
qed

text \<open>
  C6, at a zoom of \<open>1 / 2 ^ 34\<close>. A tile is \<open>1 / 2 ^ 30\<close> pixels wide and
  max(1, ceil(MIN_VISIBLE_PIXELS / (TILE_SIZE * zoom))) is 4294967296, which no \<open>int\<close>
  holds: the conversion yields \<open>INT_MIN\<close> and the stride of \<open>draw\<close> is 1.
\<close>

theorem lod_step_overflows:
  "(0::real) < 1 / 2 ^ 34 \<and>
   pixelsPerTile (1 / 2 ^ 34) = 1 / 2 ^ 30 \<and>
   \<lceil>MIN_VISIBLE_PIXELS / pixelsPerTile (1 / 2 ^ 34)\<rceil> = 2 ^ 32 \<and>
   spec_step (of_int TILE_SIZE) MIN_VISIBLE_PIXELS (1 / 2 ^ 34) = 4294967296 \<and>
   lod_step (1 / 2 ^ 34) = 1"
  by (simp add: pixelsPerTile_def TILE_SIZE_def MIN_VISIBLE_PIXELS_def spec_step_def
      lod_step_eq int_cast_num)

text \<open>
  C7, at the zooms \<open>1 / 2 ^ 34\<close> and \<open>1 / 2 ^ 20\<close>. The stride at the smaller zoom is 1,
  the stride at the larger zoom is 262144: across the overflow of the conversion the
  stride is not monotone.
\<close>

theorem lod_step_not_monotone:
  "(0::real) < 1 / 2 ^ 34 \<and> (1 / 2 ^ 34 :: real) \<le> 1 / 2 ^ 20 \<and>
   lod_step (1 / 2 ^ 34) = 1 \<and> lod_step (1 / 2 ^ 20) = 262144 \<and>
   lod_step (1 / 2 ^ 34) < lod_step (1 / 2 ^ 20)"
  by (simp add: lod_step_eq int_cast_num)

section \<open>The visible range\<close>

lemma visible_range_eq:
  "visible_range ox oy z w h =
     (max 0 (int_cast (of_int \<lfloor>tile_coord (- ox) z\<rfloor>)),
      max 0 (int_cast (of_int \<lfloor>tile_coord (- oy) z\<rfloor>)),
      min MAP_WIDTH (int_cast (of_int \<lceil>tile_coord (of_int w - ox) z\<rceil>)),
      min MAP_HEIGHT (int_cast (of_int \<lceil>tile_coord (of_int h - oy) z\<rceil>)))"
  unfolding visible_range_def view_bounds_def Let_def tile_coord_def
  by simp

lemma tile_coord_less:
  "0 < z \<Longrightarrow> tile_coord p z < of_int t \<longleftrightarrow> p < z * of_int (t * TILE_SIZE)"
  by (simp add: tile_coord_def TILE_SIZE_def field_simps)

lemma less_tile_coord:
  "0 < z \<Longrightarrow> of_int t < tile_coord p z \<longleftrightarrow> z * of_int (t * TILE_SIZE) < p"
  by (simp add: tile_coord_def TILE_SIZE_def field_simps)

lemma lower_tile_bound:
  assumes "0 < z" and "0 < worldToScreen off z (of_int ((t + 1) * TILE_SIZE))"
  shows "\<lfloor>tile_coord (- off) z\<rfloor> \<le> t"
proof -
  from assms(2) have "- off < z * of_int ((t + 1) * TILE_SIZE)"
    by (simp add: worldToScreen_def)
  with assms(1) have "tile_coord (- off) z < of_int (t + 1)"
    by (simp only: tile_coord_less)
  then have "\<lfloor>tile_coord (- off) z\<rfloor> < t + 1"
    by (simp only: floor_less_iff)
  then show ?thesis by simp
qed

lemma upper_tile_bound:
  assumes "0 < z" and "worldToScreen off z (of_int (t * TILE_SIZE)) < of_int w"
  shows "t < \<lceil>tile_coord (of_int w - off) z\<rceil>"
proof -
  from assms(2) have "z * of_int (t * TILE_SIZE) < of_int w - off"
    by (simp add: worldToScreen_def)
  with assms(1) have "of_int t < tile_coord (of_int w - off) z"
    by (simp only: less_tile_coord)
  then show ?thesis
    by (simp only: less_ceiling_iff)
qed

text \<open>Every index pair of the range is on the grid, whatever the conversions yield.\<close>

lemma visible_range_on_grid: "in_range (visible_range ox oy z w h) x y \<Longrightarrow> on_grid x y"
  by (simp add: in_range_def visible_range_eq on_grid_def)

lemma int_cast_le: "k \<le> t \<Longrightarrow> 0 \<le> t \<Longrightarrow> t \<le> INT_MAX \<Longrightarrow> int_cast (of_int k) \<le> t"
  by (simp add: int_cast_of_int INT_MIN_def INT_MAX_def)

text \<open>
  Where the tile coordinates of the viewport's right and bottom edge fit an \<open>int\<close>, every
  grid tile whose quad intersects the viewport is in the range.
\<close>

lemma visible_range_covers:
  assumes z: "0 < z"
    and fx: "\<lceil>tile_coord (of_int w - ox) z\<rceil> \<le> INT_MAX"
    and fy: "\<lceil>tile_coord (of_int h - oy) z\<rceil> \<le> INT_MAX"
    and grid: "on_grid tx ty" and vis: "quad_intersects_viewport ox oy z w h tx ty"
  shows "in_range (visible_range ox oy z w h) tx ty"
proof -
  from grid have g: "0 \<le> tx" "tx < MAP_WIDTH" "0 \<le> ty" "ty < MAP_HEIGHT"
    by (simp_all add: on_grid_def)
  then have m: "tx \<le> INT_MAX" "ty \<le> INT_MAX"
    by (simp_all add: MAP_WIDTH_def MAP_HEIGHT_def INT_MAX_def)
  from vis have q: "worldToScreen ox z (of_int (tx * TILE_SIZE)) < of_int w"
     "0 < worldToScreen ox z (of_int ((tx + 1) * TILE_SIZE))"
     "worldToScreen oy z (of_int (ty * TILE_SIZE)) < of_int h"
     "0 < worldToScreen oy z (of_int ((ty + 1) * TILE_SIZE))"
    unfolding quad_intersects_viewport_def by blast+
  have lo: "int_cast (of_int \<lfloor>tile_coord (- ox) z\<rfloor>) \<le> tx"
    "int_cast (of_int \<lfloor>tile_coord (- oy) z\<rfloor>) \<le> ty"
    using lower_tile_bound [OF z q(2)] lower_tile_bound [OF z q(4)] m g
    by (simp_all add: int_cast_le)
  have up: "tx < \<lceil>tile_coord (of_int w - ox) z\<rceil>" "ty < \<lceil>tile_coord (of_int h - oy) z\<rceil>"
    using upper_tile_bound [OF z q(1)] upper_tile_bound [OF z q(3)] by simp_all
  have above: "INT_MIN \<le> c" if "0 \<le> t" and "t < c" for t c :: int
    using that by (simp add: INT_MIN_def)
  have "INT_MIN \<le> \<lceil>tile_coord (of_int w - ox) z\<rceil>"
    and "INT_MIN \<le> \<lceil>tile_coord (of_int h - oy) z\<rceil>"
    using g up by (blast intro: above)+
  with fx fy have "int_cast (of_int \<lceil>tile_coord (of_int w - ox) z\<rceil>) = \<lceil>tile_coord (of_int w - ox) z\<rceil>"
    and "int_cast (of_int \<lceil>tile_coord (of_int h - oy) z\<rceil>) = \<lceil>tile_coord (of_int h - oy) z\<rceil>"
    by (simp_all only: int_cast_fits)
  with up have hi: "tx < int_cast (of_int \<lceil>tile_coord (of_int w - ox) z\<rceil>)"
    "ty < int_cast (of_int \<lceil>tile_coord (of_int h - oy) z\<rceil>)"
    by simp_all
  from g lo hi show ?thesis
    by (simp add: in_range_def visible_range_eq)
qed


section \<open>The tile loop\<close>

lemma loop_range_stop: "\<not> x < hi \<Longrightarrow> loop_range x hi s = Some []"
  by (subst loop_range.simps) simp

lemma loop_range_go:
  "x < hi \<Longrightarrow> loop_range x hi s =
     Option.bind (loop_range (wrap32 (x + s)) hi s) (\<lambda>rest. Some (x # rest))"
  by (subst loop_range.simps) simp

lemma tile_rows_stop: "\<not> y < hi \<Longrightarrow> tile_rows y hi x0 x1 s = Some []"
  by (subst tile_rows.simps) simp

lemma tile_rows_go:
  "y < hi \<Longrightarrow> tile_rows y hi x0 x1 s =
     Option.bind (loop_range x0 x1 s) (\<lambda>xs.
     Option.bind (tile_rows (wrap32 (y + s)) hi x0 x1 s) (\<lambda>rest.
     Some (map (\<lambda>x. (x, y)) xs @ rest)))"
  by (subst tile_rows.simps) simp

text \<open>With stride 1 the loop visits every index from \<open>x\<close> up to \<open>hi - 1\<close>.\<close>

lemma loop_range_unit:
  "INT_MIN \<le> x \<Longrightarrow> hi \<le> INT_MAX \<Longrightarrow> loop_range x hi 1 = Some [x..hi - 1]"
proof (induction "nat (hi - x)" arbitrary: x)
  case 0
  then have "\<not> x < hi" by simp
  then show ?case
    by (simp add: loop_range_stop)
next
  case (Suc n)
  then have lt: "x < hi" by linarith
  with Suc.prems have w: "wrap32 (x + 1) = x + 1"
    by (intro wrap32_fits) simp_all
  have "loop_range (x + 1) hi 1 = Some [x + 1..hi - 1]"
    using Suc.hyps(2) Suc.prems by (intro Suc.hyps(1)) simp_all
  with lt w show ?case
    by (simp add: loop_range_go upto_rec1 [of x "hi - 1"])
qed

lemma tile_rows_unit:
  "INT_MIN \<le> y \<Longrightarrow> hi \<le> INT_MAX \<Longrightarrow> INT_MIN \<le> x0 \<Longrightarrow> x1 \<le> INT_MAX \<Longrightarrow>
     tile_rows y hi x0 x1 1 = Some (concat (map (\<lambda>y. map (\<lambda>x. (x, y)) [x0..x1 - 1]) [y..hi - 1]))"
proof (induction "nat (hi - y)" arbitrary: y)
  case 0
  then have "\<not> y < hi" by simp
  then show ?case
    by (simp add: tile_rows_stop)
next
  case (Suc n)
  then have lt: "y < hi" by linarith
  with Suc.prems have w: "wrap32 (y + 1) = y + 1"
    by (intro wrap32_fits) simp_all
  have "tile_rows (y + 1) hi x0 x1 1
      = Some (concat (map (\<lambda>y. map (\<lambda>x. (x, y)) [x0..x1 - 1]) [y + 1..hi - 1]))"
    using Suc.hyps(2) Suc.prems by (intro Suc.hyps(1)) simp_all
  with lt w Suc.prems show ?case
    by (simp add: tile_rows_go loop_range_unit upto_rec1 [of y "hi - 1"])
qed

lemma length_grid: "length (concat (map (\<lambda>y. map (f y) xs) ys)) = length ys * length xs"
  by (induction ys) simp_all

text \<open>
  C1, at a zoom of \<open>1 / 2 ^ 26\<close> with offset (0, 0) and a viewport of 784 by 584. The whole
  grid lies inside the viewport, but the tile coordinates of the viewport's right and
  bottom edge do not fit an \<open>int\<close>: \<open>tileX1\<close> and \<open>tileY1\<close> are \<open>INT_MIN\<close>, the range is empty
  and nothing is drawn. The tiles (0, 0) and (9999, 9999), whose quads intersect the
  viewport, are outside the range.
\<close>

theorem visible_range_overflows:
  "visible_range 0 0 (1 / 2 ^ 26) 784 584 = (0, 0, INT_MIN, INT_MIN) \<and>
   tile_loop (visible_range 0 0 (1 / 2 ^ 26) 784 584) (lod_step (1 / 2 ^ 26)) = Some [] \<and>
   on_grid 0 0 \<and> quad_intersects_viewport 0 0 (1 / 2 ^ 26) 784 584 0 0 \<and>
   \<not> in_range (visible_range 0 0 (1 / 2 ^ 26) 784 584) 0 0 \<and>
   on_grid 9999 9999 \<and> quad_intersects_viewport 0 0 (1 / 2 ^ 26) 784 584 9999 9999 \<and>
   \<not> in_range (visible_range 0 0 (1 / 2 ^ 26) 784 584) 9999 9999"
  by (simp add: visible_range_eq tile_coord_def int_cast_num tile_loop_def tile_rows_stop
      on_grid_def quad_intersects_viewport_def worldToScreen_def in_range_def
      TILE_SIZE_def MAP_WIDTH_def MAP_HEIGHT_def)

text \<open>
  C8, at a zoom of \<open>1 / 2 ^ 34\<close> with offset (783, 583) and a viewport of 784 by 584. The
  left and top edge convert to \<open>INT_MIN\<close> and are raised to 0, the right and bottom edge
  are cut to the size of the map, and the stride overflows to 1: \<open>drawTile\<close> is called for
  every cell of the map, 100,000,000 times, where the bound that holds for the zooms
  without overflow is 29304.
\<close>

theorem draw_calls_unbounded:
  "visible_range 783 583 (1 / 2 ^ 34) 784 584 = (0, 0, 10000, 10000) \<and>
   lod_step (1 / 2 ^ 34) = 1 \<and>
   map_option length (draw_tiles tm 783 583 (1 / 2 ^ 34) 784 584) = Some 100000000 \<and>
   nat (MAP_WIDTH * MAP_HEIGHT) = 100000000 \<and>
   draw_call_bound 784 584 = 29304"
proof -
  have r: "visible_range 783 583 (1 / 2 ^ 34) 784 584 = (0, 0, 10000, 10000)"
    by (simp add: visible_range_eq tile_coord_def int_cast_num TILE_SIZE_def MAP_WIDTH_def MAP_HEIGHT_def)
  have s: "lod_step (1 / 2 ^ 34) = 1"
    by (simp add: lod_step_eq int_cast_num)
  have "tile_rows 0 10000 0 10000 1
      = Some (concat (map (\<lambda>y. map (\<lambda>x. (x, y)) [0..10000 - 1]) [0..10000 - 1]))"
    by (rule tile_rows_unit) (simp_all add: INT_MIN_def INT_MAX_def)
  then have "map_option length (draw_tiles tm 783 583 (1 / 2 ^ 34) 784 584) = Some 100000000"
    unfolding draw_tiles_def Let_def r s tile_loop_def
    by (simp add: length_grid)
  with r s show ?thesis
    by (simp add: MAP_WIDTH_def MAP_HEIGHT_def draw_call_bound_def MIN_VISIBLE_PIXELS_def)
qed


section \<open>Strides that do not overflow\<close>

lemma lod_step_bound:
  assumes "1 / 2 ^ 32 \<le> z"
  shows "lod_step z \<le> 2 ^ 30"
proof -
  from assms have z: "0 < z"
    by (rule less_le_trans [rotated]) simp
  from assms have "1 \<le> z * 2 ^ 32"
    by (simp add: field_simps)
  with z have "1 / (4 * z) \<le> 2 ^ 30"
    by (simp add: field_simps)
  then have "\<lceil>1 / (4 * z)\<rceil> \<le> 2 ^ 30"
    by (simp add: ceiling_le_iff)
  then show ?thesis
    by (simp add: lod_step_eq int_cast_of_int INT_MIN_def)
qed



text \<open>
  A loop whose counter cannot overflow ends; its last index is below the upper bound and
  every index lies between the bounds.
\<close>

lemma count_zero:
  assumes "1 \<le> (s::int)" and "int n * s < s"
  shows "n = 0"
proof (rule ccontr)
  assume "n \<noteq> 0"
  then have "1 \<le> int n"
    by simp
  then have "1 * s \<le> int n * s"
    using assms(1) by (intro mult_right_mono) simp_all
  with assms(2) show False
    by simp
qed

lemma loop_range_ends:
  assumes "1 \<le> s" and "INT_MIN \<le> x" and "hi + s \<le> INT_MAX + 1"
  shows "\<exists>xs. loop_range x hi s = Some xs \<and> int (length xs) * s < max 0 (hi - x) + s
           \<and> set xs \<subseteq> {x..<hi}"
  using assms
proof (induction "nat (hi - x)" arbitrary: x rule: less_induct)
  case less
  show ?case
  proof (cases "x < hi")
    case False
    with less.prems show ?thesis
      by (simp add: loop_range_stop)
  next
    case True
    with less.prems have w: "wrap32 (x + s) = x + s"
      by (intro wrap32_fits) simp_all
    have "nat (hi - (x + s)) < nat (hi - x)"
      using True less.prems(1) by simp
    moreover have "INT_MIN \<le> x + s"
      using less.prems by simp
    ultimately obtain xs where xs: "loop_range (x + s) hi s = Some xs"
      "int (length xs) * s < max 0 (hi - (x + s)) + s" "set xs \<subseteq> {x + s..<hi}"
      using less.hyps [of "x + s"] less.prems(1,3) by blast
    have "loop_range x hi s = Some (x # xs)"
      using True w xs(1) by (simp add: loop_range_go)
    moreover have "int (length (x # xs)) * s < max 0 (hi - x) + s"
    proof (cases "x + s < hi")
      case True
      with xs(2) show ?thesis
        by (simp add: algebra_simps)
    next
      case False
      with xs(2) less.prems(1) have "int (length xs) * s < s"
        by simp
      with less.prems(1) have "length xs = 0"
        by (rule count_zero)
      with \<open>x < hi\<close> show ?thesis
        by simp
    qed
    moreover have "set (x # xs) \<subseteq> {x..<hi}"
      using xs(3) True less.prems(1) by auto
    ultimately show ?thesis
      by blast
  qed
qed

lemma tile_rows_ends:
  assumes "1 \<le> s" and "INT_MIN \<le> y" and "hi + s \<le> INT_MAX + 1"
    and "loop_range x0 x1 s = Some xs"
  shows "\<exists>cells n. tile_rows y hi x0 x1 s = Some cells \<and> length cells = n * length xs
           \<and> int n * s < max 0 (hi - y) + s \<and> set cells \<subseteq> set xs \<times> {y..<hi}"
  using assms
proof (induction "nat (hi - y)" arbitrary: y rule: less_induct)
  case less
  show ?case
  proof (cases "y < hi")
    case False
    with less.prems show ?thesis
      by (simp add: tile_rows_stop)
  next
    case True
    with less.prems have w: "wrap32 (y + s) = y + s"
      by (intro wrap32_fits) simp_all
    have "nat (hi - (y + s)) < nat (hi - y)"
      using True less.prems(1) by simp
    moreover have "INT_MIN \<le> y + s"
      using less.prems by simp
    ultimately obtain cells n where c: "tile_rows (y + s) hi x0 x1 s = Some cells"
      "length cells = n * length xs" "int n * s < max 0 (hi - (y + s)) + s"
      "set cells \<subseteq> set xs \<times> {y + s..<hi}"
      using less.hyps [of "y + s"] less.prems(1,3,4) by blast
    have "tile_rows y hi x0 x1 s = Some (map (\<lambda>x. (x, y)) xs @ cells)"
      using True w c(1) less.prems(4) by (simp add: tile_rows_go)
    moreover have "length (map (\<lambda>x. (x, y)) xs @ cells) = Suc n * length xs"
      using c(2) by simp
    moreover have "int (Suc n) * s < max 0 (hi - y) + s"
    proof (cases "y + s < hi")
      case True
      with c(3) show ?thesis
        by (simp add: algebra_simps)
    next
      case False
      with c(3) less.prems(1) have "int n * s < s"
        by simp
      with less.prems(1) have "n = 0"
        by (rule count_zero)
      with \<open>y < hi\<close> show ?thesis
        by simp
    qed
    moreover have "set (map (\<lambda>x. (x, y)) xs @ cells) \<subseteq> set xs \<times> {y..<hi}"
      using c(4) True less.prems(1) by auto
    ultimately show ?thesis
      by blast
  qed
qed


lemma lod_step_covers:
  assumes "1 / 2 ^ 32 \<le> z"
  shows "1 / (4 * z) \<le> of_int (lod_step z)"
proof -
  from assms have z: "0 < z"
    by (rule less_le_trans [rotated]) simp
  from assms have "1 \<le> z * 2 ^ 32"
    by (simp add: field_simps)
  with z have "1 / (4 * z) \<le> 2 ^ 30"
    by (simp add: field_simps)
  then have "\<lceil>1 / (4 * z)\<rceil> \<le> 2 ^ 30"
    by (simp add: ceiling_le_iff)
  moreover have "0 \<le> \<lceil>1 / (4 * z)\<rceil>"
  proof -
    have "0 \<le> 1 / (4 * z)"
      using z by simp
    then have "- 1 < 1 / (4 * z)"
      by linarith
    then show ?thesis
      by (simp add: le_ceiling_iff)
  qed
  ultimately have "int_cast (of_int \<lceil>1 / (4 * z)\<rceil>) = \<lceil>1 / (4 * z)\<rceil>"
    by (intro int_cast_fits) (simp_all add: INT_MIN_def INT_MAX_def)
  then have "\<lceil>1 / (4 * z)\<rceil> \<le> lod_step z"
    by (simp add: lod_step_eq)
  then have "of_int \<lceil>1 / (4 * z)\<rceil> \<le> (of_int (lod_step z) :: real)"
    by (simp only: of_int_le_iff)
  then show ?thesis
    by linarith
qed

lemma span_bound:
  assumes z: "0 < z"
  shows "of_int (\<lceil>tile_coord (of_int w - off) z\<rceil> - \<lfloor>tile_coord (- off) z\<rfloor>)
           < of_int w / (16 * z) + (2::real)"
proof -
  define R where "R = tile_coord (of_int w - off) z"
  define L where "L = tile_coord (- off) z"
  have d: "R - L = of_int w / (16 * z)"
    using z by (simp add: R_def L_def tile_coord_def TILE_SIZE_def field_simps)
  have "of_int \<lceil>R\<rceil> < R + 1" and "L - 1 < of_int \<lfloor>L\<rfloor>"
    by linarith+
  with d have "of_int \<lceil>R\<rceil> - of_int \<lfloor>L\<rfloor> < of_int w / (16 * z) + (2::real)"
    by linarith
  then show ?thesis
    by (simp only: R_def L_def of_int_diff)
qed

text \<open>One axis of the loop, in exact integers: the number \<open>k\<close> of visited indices.\<close>

lemma count_bound:
  assumes z: "0 < z" and w: "0 \<le> w" and s1: "1 \<le> s" and s2: "1 / (4 * z) \<le> of_int s"
    and lo: "\<lfloor>tile_coord (- off) z\<rfloor> \<le> t0" and hi: "t1 \<le> \<lceil>tile_coord (of_int w - off) z\<rceil>"
    and k: "int k * s < max 0 (t1 - t0) + s"
  shows "int k \<le> \<lfloor>of_int w / MIN_VISIBLE_PIXELS\<rfloor> + 2"
proof -
  from k have "(int k - 1) * s < max 0 (t1 - t0)"
    by (simp add: algebra_simps)
  then have "(int k - 1) * s \<le> max 0 (t1 - t0) - 1"
    by simp
  then have "of_int ((int k - 1) * s) \<le> (of_int (max 0 (t1 - t0) - 1) :: real)"
    by (simp only: of_int_le_iff)
  moreover have "of_int (t1 - t0) < of_int w / (16 * z) + (2::real)"
  proof -
    have "of_int (t1 - t0) \<le> (of_int (\<lceil>tile_coord (of_int w - off) z\<rceil> - \<lfloor>tile_coord (- off) z\<rfloor>) :: real)"
      using lo hi by simp
    with span_bound [OF z, of w off] show ?thesis
      by linarith
  qed
  moreover have "0 \<le> of_int w / (16 * z)"
    using z w by simp
  ultimately have key: "of_int (int k - 1) * of_int s < of_int w / (16 * z) + (1::real)"
    by (simp add: max_def split: if_splits)
  have "of_int (int k - 1) < of_int w / 4 + (1::real)"
  proof (rule ccontr)
    assume "\<not> of_int (int k - 1) < of_int w / 4 + (1::real)"
    then have ge: "of_int w / 4 + 1 \<le> (of_int (int k - 1) :: real)"
      by simp
    have "of_int w / (16 * z) + 1 \<le> (of_int w / 4) * of_int s + (of_int s :: real)"
    proof -
      have "(of_int w / 4) * (1 / (4 * z)) \<le> (of_int w / 4) * (of_int s :: real)"
        using s2 w by (intro mult_left_mono) simp_all
      moreover have "(of_int w / 4) * (1 / (4 * z)) = of_int w / (16 * z)"
        by simp
      moreover have "1 \<le> (of_int s :: real)"
        using s1 by simp
      ultimately show ?thesis
        by linarith
    qed
    also have "\<dots> = (of_int w / 4 + 1) * of_int s"
      by (simp add: algebra_simps)
    also have "\<dots> \<le> of_int (int k - 1) * of_int s"
      using ge s1 by (intro mult_right_mono) simp_all
    finally show False
      using key by simp
  qed
  then have "of_int (int k - 1) < (of_int (\<lfloor>of_int w / 4 :: real\<rfloor> + 2) :: real)"
    by (simp only: of_int_add of_int_numeral) linarith
  then have "int k - 1 < \<lfloor>of_int w / 4 :: real\<rfloor> + 2"
    by (simp only: of_int_less_iff)
  then show ?thesis
    by (simp add: MIN_VISIBLE_PIXELS_def)
qed

text \<open>The same with the bounds \<open>draw\<close> computes, conversions included.\<close>

lemma axis_count:
  assumes zb: "1 / 2 ^ 32 \<le> z" and w: "0 \<le> w"
    and t0: "t0 = max 0 (int_cast (of_int \<lfloor>tile_coord (- off) z\<rfloor>))"
    and t1: "t1 = min M (int_cast (of_int \<lceil>tile_coord (of_int w - off) z\<rceil>))"
    and k: "int k * lod_step z < max 0 (t1 - t0) + lod_step z"
  shows "int k \<le> \<lfloor>of_int w / MIN_VISIBLE_PIXELS\<rfloor> + 2"
proof (cases "t0 < t1")
  case False
  with k have "int k * lod_step z < lod_step z"
    by simp
  then have "k = 0"
    using lod_step_pos by (intro count_zero)
  moreover have "0 \<le> \<lfloor>of_int w / MIN_VISIBLE_PIXELS\<rfloor>"
    using w by (simp add: MIN_VISIBLE_PIXELS_def)
  ultimately show ?thesis
    by simp
next
  case True
  from zb have z: "0 < z"
    by (rule less_le_trans [rotated]) simp
  define L where "L = \<lfloor>tile_coord (- off) z\<rfloor>"
  define R where "R = \<lceil>tile_coord (of_int w - off) z\<rceil>"
  have "tile_coord (- off) z \<le> tile_coord (of_int w - off) z"
    using z w by (simp add: tile_coord_def TILE_SIZE_def field_simps)
  then have LR: "L \<le> R"
    unfolding L_def R_def by (meson ceiling_mono floor_le_ceiling order_trans)
  from True t0 t1 have "0 < int_cast (of_int R)"
    unfolding R_def by simp
  then have R: "int_cast (of_int R) = R" "R \<le> INT_MAX"
    by (simp_all add: int_cast_of_int INT_MIN_def split: if_splits)
  then have hi: "t1 \<le> R"
    using t1 by (simp add: R_def)
  have "int_cast (of_int L) = L \<or> L < 0"
    using LR R(2) by (auto simp add: int_cast_of_int INT_MIN_def)
  moreover from t0 have "t0 = max 0 (int_cast (of_int L))"
    by (simp only: L_def)
  ultimately have lo: "L \<le> t0"
    by auto
  show ?thesis
    using z w lod_step_pos lod_step_covers [OF zb] lo hi k
    unfolding L_def R_def by (rule count_bound)
qed

text \<open>
  For a zoom of at least \<open>1 / 2 ^ 32\<close> the stride fits an \<open>int\<close> and the loop counters do not
  overflow: the loops end, every visited cell is on the grid, and their number is at most
  \<open>draw_call_bound w h\<close>, whatever the offset.
\<close>

lemma tile_loop_bounded:
  assumes zb: "1 / 2 ^ 32 \<le> z" and w: "0 \<le> w" and h: "0 \<le> h"
  shows "\<exists>cells. tile_loop (visible_range ox oy z w h) (lod_step z) = Some cells
           \<and> length cells \<le> draw_call_bound w h \<and> (\<forall>(x, y) \<in> set cells. on_grid x y)"
proof -
  define x0 where "x0 = max 0 (int_cast (of_int \<lfloor>tile_coord (- ox) z\<rfloor>))"
  define y0 where "y0 = max 0 (int_cast (of_int \<lfloor>tile_coord (- oy) z\<rfloor>))"
  define x1 where "x1 = min MAP_WIDTH (int_cast (of_int \<lceil>tile_coord (of_int w - ox) z\<rceil>))"
  define y1 where "y1 = min MAP_HEIGHT (int_cast (of_int \<lceil>tile_coord (of_int h - oy) z\<rceil>))"
  define s where "s = lod_step z"
  have r: "visible_range ox oy z w h = (x0, y0, x1, y1)"
    by (simp only: visible_range_eq x0_def y0_def x1_def y1_def)
  have s1: "1 \<le> s"
    by (simp add: s_def lod_step_pos)
  have "s \<le> 2 ^ 30"
    unfolding s_def using zb by (rule lod_step_bound)
  then have fit: "x1 + s \<le> INT_MAX + 1" "y1 + s \<le> INT_MAX + 1"
    by (simp_all add: x1_def y1_def MAP_WIDTH_def MAP_HEIGHT_def INT_MAX_def)
  have low: "INT_MIN \<le> x0" "INT_MIN \<le> y0" "0 \<le> x0" "0 \<le> y0"
    by (simp_all add: x0_def y0_def INT_MIN_def)
  obtain xs where xs: "loop_range x0 x1 s = Some xs"
    "int (length xs) * s < max 0 (x1 - x0) + s" "set xs \<subseteq> {x0..<x1}"
    using loop_range_ends [OF s1 low(1) fit(1)] by blast
  obtain cells n where c: "tile_rows y0 y1 x0 x1 s = Some cells" "length cells = n * length xs"
    "int n * s < max 0 (y1 - y0) + s" "set cells \<subseteq> set xs \<times> {y0..<y1}"
    using tile_rows_ends [OF s1 low(2) fit(2) xs(1)] by blast
  have cols: "int (length xs) \<le> \<lfloor>of_int w / MIN_VISIBLE_PIXELS\<rfloor> + 2"
    using zb w x0_def x1_def xs(2) unfolding s_def by (rule axis_count)
  have rows: "int n \<le> \<lfloor>of_int h / MIN_VISIBLE_PIXELS\<rfloor> + 2"
    using zb h y0_def y1_def c(3) unfolding s_def by (rule axis_count)
  have "int n * int (length xs)
      \<le> (\<lfloor>of_int h / MIN_VISIBLE_PIXELS\<rfloor> + 2) * (\<lfloor>of_int w / MIN_VISIBLE_PIXELS\<rfloor> + 2)"
    using cols rows by (intro mult_mono) simp_all
  then have "int (length cells)
      \<le> (\<lfloor>of_int w / MIN_VISIBLE_PIXELS\<rfloor> + 2) * (\<lfloor>of_int h / MIN_VISIBLE_PIXELS\<rfloor> + 2)"
    by (simp add: c(2) mult.commute)
  then have "length cells \<le> draw_call_bound w h"
    unfolding draw_call_bound_def by linarith
  moreover have "\<forall>(x, y) \<in> set cells. on_grid x y"
  proof -
    have "x1 \<le> MAP_WIDTH" "y1 \<le> MAP_HEIGHT"
      by (simp_all add: x1_def y1_def)
    with low(3,4) xs(3) c(4) show ?thesis
      by (fastforce simp add: on_grid_def)
  qed
  ultimately show ?thesis
    using c(1) by (simp add: r tile_loop_def s_def)
qed

lemma draw_calls_bounded_fits:
  assumes "1 / 2 ^ 32 \<le> z" and "0 \<le> w" and "0 \<le> h"
  shows "\<exists>calls. draw_tiles tm ox oy z w h = Some calls \<and> length calls \<le> draw_call_bound w h"
  using tile_loop_bounded [OF assms, of ox oy]
  by (auto simp add: draw_tiles_def Let_def)


section \<open>The degenerate viewport\<close>

lemma ceiling_half: "\<lceil>1 / 2 :: real\<rceil> = 1" "\<lceil>- (1 / 2) :: real\<rceil> = 0"
  by (simp_all add: ceiling_eq_iff)








section \<open>Pointer picking\<close>

lemma canvas_updateScrollbars [simp]: "canvas (updateScrollbars v) = canvas v"
  by (simp add: updateScrollbars_def Let_def)

lemma wheel_zoom_fields [simp]:
  "zoom (wheel_zoom s mx my f) = zoom s * f"
  "hoveredX (wheel_zoom s mx my f) = hoveredX s"
  "hoveredY (wheel_zoom s mx my f) = hoveredY s"
  "canvas_w (wheel_zoom s mx my f) = canvas_w s"
  "canvas_h (wheel_zoom s mx my f) = canvas_h s"
  by (simp_all add: wheel_zoom_def Let_def)

lemma updateHoveredTile_fields [simp]:
  "zoom (updateHoveredTile s x y) = zoom s"
  "offsetX (updateHoveredTile s x y) = offsetX s"
  "offsetY (updateHoveredTile s x y) = offsetY s"
  by (simp_all add: updateHoveredTile_def Let_def)

lemma int_cast_floor: "0 \<le> x \<Longrightarrow> x < 2 ^ 31 \<Longrightarrow> int_cast x = \<lfloor>x\<rfloor>"
  by (simp add: int_cast_trunc trunc_zero_def)

text \<open>
  Where the world coordinate is not negative and its tile coordinate fits an \<open>int\<close>,
  truncation is the floor.
\<close>

lemma pick_right_of_origin:
  assumes "0 < zoom s" and "offsetX s \<le> of_int mx" and "offsetY s \<le> of_int my"
    and "fst (screenToWorld s mx my) / of_int TILE_SIZE < 2 ^ 31"
    and "snd (screenToWorld s mx my) / of_int TILE_SIZE < 2 ^ 31"
  shows "hovered (updateHoveredTile s mx my) = spec_pick s mx my"
proof -
  have "0 \<le> (of_int mx - offsetX s) / zoom s / of_int TILE_SIZE"
    and "0 \<le> (of_int my - offsetY s) / zoom s / of_int TILE_SIZE"
    using assms(1-3) by (simp_all add: TILE_SIZE_def)
  moreover have "(of_int mx - offsetX s) / zoom s / of_int TILE_SIZE < 2 ^ 31"
    and "(of_int my - offsetY s) / zoom s / of_int TILE_SIZE < 2 ^ 31"
    using assms(4,5) by (simp_all add: screenToWorld_def)
  ultimately have "int_cast ((of_int mx - offsetX s) / zoom s / of_int TILE_SIZE)
      = \<lfloor>(of_int mx - offsetX s) / zoom s / of_int TILE_SIZE\<rfloor>"
    and "int_cast ((of_int my - offsetY s) / zoom s / of_int TILE_SIZE)
      = \<lfloor>(of_int my - offsetY s) / zoom s / of_int TILE_SIZE\<rfloor>"
    by (simp_all only: int_cast_floor)
  then show ?thesis
    by (simp add: hovered_def updateHoveredTile_def spec_pick_def screenToWorld_def Let_def
        on_grid_def)
qed

text \<open>Scenario C of the specification.\<close>

lemma scenario_C:
  "hovered (updateHoveredTile (init_canvas\<lparr>offsetX := - 500, offsetY := - 500\<rparr>) 0 0) = Some (31, 31)"
  by (simp add: hovered_def updateHoveredTile_def init_canvas_def int_cast_def trunc_zero_def
      INT_MIN_def INT_MAX_def TILE_SIZE_def MAP_WIDTH_def MAP_HEIGHT_def)

text \<open>A pointer on the top left corner of a grid tile picks that tile.\<close>

lemma pick_tile_corner:
  assumes "on_grid tx ty" and "0 < zoom s"
    and "of_int sx = worldToScreen (offsetX s) (zoom s) (of_int (tx * TILE_SIZE))"
    and "of_int sy = worldToScreen (offsetY s) (zoom s) (of_int (ty * TILE_SIZE))"
  shows "hovered (updateHoveredTile s sx sy) = Some (tx, ty)"
proof -
  have "(of_int sx - offsetX s) / zoom s / of_int TILE_SIZE = of_int tx"
    and "(of_int sy - offsetY s) / zoom s / of_int TILE_SIZE = of_int ty"
    using assms(2-4) by (simp_all add: worldToScreen_def TILE_SIZE_def)
  moreover from assms(1) have "int_cast (of_int tx) = tx" and "int_cast (of_int ty) = ty"
    by (simp_all add: on_grid_def int_cast_of_int INT_MIN_def INT_MAX_def MAP_WIDTH_def
        MAP_HEIGHT_def)
  ultimately show ?thesis
    using assms(1)
    by (simp add: hovered_def updateHoveredTile_def Let_def on_grid_def)
qed

text \<open>
  C2, at a pointer left of the grid. One drag of 8 pixels to the right puts the grid's
  origin at screen x = 8; the pointer at (0, 0) is then over the world coordinate (-8, 0).
  The floor of -8 / 16 is -1, no tile; the code converts -0.5 to 0 and reports tile (0, 0).
\<close>

theorem hover_pick_truncates:
  "canvas (run init_view [Event (FL_PUSH FL_LEFT_MOUSE 0 0), Event (FL_DRAG 8 0),
       Event FL_RELEASE]) = init_canvas\<lparr>offsetX := 8, lastMouseX := 8\<rparr> \<and>
   screenToWorld (init_canvas\<lparr>offsetX := 8, lastMouseX := 8\<rparr>) 0 0 = (- 8, 0) \<and>
   spec_pick (init_canvas\<lparr>offsetX := 8, lastMouseX := 8\<rparr>) 0 0 = None \<and>
   hovered (updateHoveredTile (init_canvas\<lparr>offsetX := 8, lastMouseX := 8\<rparr>) 0 0) = Some (0, 0)"
  by (simp add: run_def init_view_def updateHoveredTile_def init_canvas_def int_cast_def
      trunc_zero_def INT_MIN_def INT_MAX_def
      ceiling_half spec_pick_def screenToWorld_def hovered_def on_grid_def
      TILE_SIZE_def MAP_WIDTH_def MAP_HEIGHT_def)

section \<open>Zooming at an anchor\<close>

text \<open>
  C3. For every transform with zoom > 0, every screen anchor and every zoom factor f > 0,
  the wheel update (zoom' = zoom * f, offset' = anchor - world * zoom') leaves the world
  coordinate under the anchor where it was; so do two such updates in succession at the
  same anchor, and so does the handler of a wheel event with its factor 0.9 or 1.1.
\<close>

theorem wheel_zoom_keeps_anchor:
  "0 < zoom s \<Longrightarrow> 0 < f \<Longrightarrow> 0 < g \<Longrightarrow>
     screenToWorld (wheel_zoom s sx sy f) sx sy = screenToWorld s sx sy \<and>
     screenToWorld (wheel_zoom (wheel_zoom s sx sy f) sx sy g) sx sy = screenToWorld s sx sy \<and>
     (canvas v = s \<longrightarrow>
        screenToWorld (canvas (handle v (FL_MOUSEWHEEL sx sy dy))) sx sy = screenToWorld s sx sy)"
proof -
  assume z: "0 < zoom s" and f: "0 < f" and g: "0 < g"
  have one: "screenToWorld (wheel_zoom t sx sy k) sx sy = screenToWorld t sx sy"
    if "0 < zoom t" and "0 < k" for t k
    using that by (simp add: screenToWorld_def wheel_zoom_def Let_def)
  have "0 < zoom (wheel_zoom s sx sy f)"
    using z f by simp
  then have "screenToWorld (wheel_zoom (wheel_zoom s sx sy f) sx sy g) sx sy
      = screenToWorld (wheel_zoom s sx sy f) sx sy"
    using g by (rule one)
  moreover have "0 < wheel_factor dy"
    by (simp add: wheel_factor_def)
  ultimately show ?thesis
    using one [OF z f] one [OF z, of "wheel_factor dy"] by auto
qed

theorem wheel_zoom_keeps_anchor_witness:
  "0 < zoom init_canvas \<and> (0::real) < 11 / 10 \<and> canvas init_view = init_canvas \<and>
   screenToWorld init_canvas 400 300 = (400, 300) \<and>
   screenToWorld (wheel_zoom init_canvas 400 300 (11 / 10)) 400 300 = (400, 300) \<and>
   screenToWorld (wheel_zoom (wheel_zoom init_canvas 400 300 (11 / 10)) 400 300 (11 / 10)) 400 300
     = (400, 300) \<and>
   screenToWorld (canvas (handle init_view (FL_MOUSEWHEEL 400 300 (- 1)))) 400 300 = (400, 300)"
  using wheel_zoom_keeps_anchor [of init_canvas "11 / 10" "11 / 10" 400 300 init_view "- 1"]
  by (simp add: init_canvas_def init_view_def screenToWorld_def)

section \<open>Invariants of the event loop\<close>

lemma run_Nil [simp]: "run v [] = v"
  by (simp add: run_def)

lemma run_snoc [simp]: "run v (ins @ [i]) = step (run v ins) i"
  by (simp add: run_def)









section \<open>The hover state\<close>

lemma updateHoveredTile_ok: "hover_state_ok (updateHoveredTile s x y)"
  by (simp add: hover_state_ok_def updateHoveredTile_def Let_def on_grid_def)

lemma hover_step: "hover_state_ok (canvas v) \<Longrightarrow> hover_state_ok (canvas (step v i))"
proof (cases i)
  case (Event e)
  assume "hover_state_ok (canvas v)"
  then show ?thesis
    unfolding Event
    by (cases e) (simp_all add: updateHoveredTile_ok Let_def, simp_all add: hover_state_ok_def)
qed (simp_all add: hscroll_callback_def vscroll_callback_def resize_def hover_state_ok_def)

lemma hover_run: "hover_state_ok (canvas v) \<Longrightarrow> hover_state_ok (canvas (run v ins))"
  by (induction ins rule: rev_induct) (simp_all add: hover_step)

lemma hover_init: "hover_state_ok (canvas init_view)"
  by (simp add: init_view_def init_canvas_def hover_state_ok_def)

text \<open>
  C10. After every sequence of inputs the hover state is (-1, -1) or a pair on the grid,
  and \<open>draw\<close> outlines a tile exactly when the pair is on the grid, at that tile's corner.
\<close>

theorem hover_state_invariant:
  "hover_state_ok (canvas (run init_view ins)) \<and>
   hover_outline (canvas (run init_view ins)) =
     (if on_grid (hoveredX (canvas (run init_view ins))) (hoveredY (canvas (run init_view ins)))
      then Some (hoveredX (canvas (run init_view ins)) * TILE_SIZE,
                 hoveredY (canvas (run init_view ins)) * TILE_SIZE)
      else None)"
proof -
  have ok: "hover_state_ok (canvas (run init_view ins))"
    by (rule hover_run) (rule hover_init)
  then show ?thesis
    by (auto simp add: hover_outline_def hover_state_ok_def on_grid_def)
qed

theorem hover_state_invariant_witness:
  "hover_state_ok (canvas (run init_view [Event (FL_MOVE 100 100), Event (FL_MOVE (- 100) 100)])) \<and>
   hovered (canvas (run init_view [Event (FL_MOVE 100 100)])) = Some (6, 6) \<and>
   hovered (canvas (run init_view [Event (FL_MOVE 100 100), Event (FL_MOVE (- 100) 100)])) = None"
  using hover_state_invariant [of "[Event (FL_MOVE 100 100), Event (FL_MOVE (- 100) 100)]"]
  by (simp add: run_def init_view_def init_canvas_def updateHoveredTile_def hovered_def
      int_cast_def trunc_zero_def INT_MIN_def INT_MAX_def TILE_SIZE_def MAP_WIDTH_def MAP_HEIGHT_def)


section \<open>Scrollbars\<close>

lemma int_cast_abs: "\<bar>x\<bar> < 2 ^ 31 \<Longrightarrow> int_cast x = trunc_zero x"
  by (rule int_cast_trunc) (simp_all add: abs_less_iff)

lemma updateScrollbars_spec:
  assumes "\<bar>offsetX (canvas u)\<bar> < 2 ^ 31" and "\<bar>offsetY (canvas u)\<bar> < 2 ^ 31"
    and "\<bar>of_int (MAP_WIDTH * TILE_SIZE) * zoom (canvas u)\<bar> < 2 ^ 31"
    and "\<bar>of_int (MAP_HEIGHT * TILE_SIZE) * zoom (canvas u)\<bar> < 2 ^ 31"
  shows "hscroll (updateScrollbars u) =
           spec_scrollbar (offsetX (canvas u)) (canvas_w (canvas u))
             (of_int (MAP_WIDTH * TILE_SIZE) * zoom (canvas u))"
    and "vscroll (updateScrollbars u) =
           spec_scrollbar (offsetY (canvas u)) (canvas_h (canvas u))
             (of_int (MAP_HEIGHT * TILE_SIZE) * zoom (canvas u))"
proof -
  have "int_cast (- offsetX (canvas u)) = trunc_zero (- offsetX (canvas u))"
    and "int_cast (- offsetY (canvas u)) = trunc_zero (- offsetY (canvas u))"
    using assms(1,2) by (simp_all add: int_cast_abs)
  moreover have "int_cast (of_int (MAP_WIDTH * TILE_SIZE) * zoom (canvas u))
      = trunc_zero (of_int (MAP_WIDTH * TILE_SIZE) * zoom (canvas u))"
    using assms(3) by (rule int_cast_abs)
  moreover have "int_cast (of_int (MAP_HEIGHT * TILE_SIZE) * zoom (canvas u))
      = trunc_zero (of_int (MAP_HEIGHT * TILE_SIZE) * zoom (canvas u))"
    using assms(4) by (rule int_cast_abs)
  ultimately show "hscroll (updateScrollbars u) =
           spec_scrollbar (offsetX (canvas u)) (canvas_w (canvas u))
             (of_int (MAP_WIDTH * TILE_SIZE) * zoom (canvas u))"
    and "vscroll (updateScrollbars u) =
           spec_scrollbar (offsetY (canvas u)) (canvas_h (canvas u))
             (of_int (MAP_HEIGHT * TILE_SIZE) * zoom (canvas u))"
    unfolding updateScrollbars_def spec_scrollbar_def Let_def by simp_all
qed

lemma mutation_updates:
  assumes "v' = handle v (FL_MOUSEWHEEL mx my dy) \<or> (dragging (canvas v) \<and> v' = handle v (FL_DRAG x y))"
  shows "\<exists>u. v' = updateScrollbars u \<and> canvas u = canvas v'"
  using assms by (auto simp add: Let_def)

text \<open>
  One notch of the wheel at the pointer (5, 0) of the initial view leaves an offset that
  is not a whole number: the horizontal scrollbar's position is 0 and differs from the
  negated offset.
\<close>

theorem scrollbar_position_truncated:
  "sb_value (hscroll (handle init_view (FL_MOUSEWHEEL 5 0 1))) = 0 \<and>
   of_int (sb_value (hscroll (handle init_view (FL_MOUSEWHEEL 5 0 1))))
     \<noteq> - offsetX (canvas (handle init_view (FL_MOUSEWHEEL 5 0 1)))"
  by (simp add: init_view_def init_canvas_def updateScrollbars_def wheel_zoom_def
      wheel_factor_def int_cast_def trunc_zero_def INT_MIN_def INT_MAX_def ceiling_half Let_def)

text \<open>
  At a zoom of 16384 the content extent, 2621440000, does not fit an \<open>int\<close>: the total of
  the scrollbar is the viewport extent.
\<close>

lemma scrollbar_total_overflows:
  "sb_total (hscroll (updateScrollbars (init_view\<lparr>canvas := init_canvas\<lparr>zoom := 16384\<rparr>\<rparr>))) = 784"
  by (simp add: updateScrollbars_def init_canvas_def int_cast_def trunc_zero_def
      INT_MIN_def INT_MAX_def MAP_WIDTH_def TILE_SIZE_def Let_def)

text \<open>
  C9, as the code has it. After a wheel zoom or a pan by dragging that leaves the offsets
  and the content extents within the range of an \<open>int\<close>, each scrollbar is set to
  position = integer part of -offset, page size = viewport extent, min = 0 and
  max = max(viewport extent, integer part of MAP_WIDTH|MAP_HEIGHT * TILE_SIZE * zoom). When
  the user moves a scrollbar to a position, the callback sets the offset of that axis to
  the negated position and changes nothing else: neither scrollbar is recomputed.
\<close>

theorem scrollbars_follow_transform:
  "v' = handle v (FL_MOUSEWHEEL mx my dy) \<or> (dragging (canvas v) \<and> v' = handle v (FL_DRAG x y)) \<Longrightarrow>
   \<bar>offsetX (canvas v')\<bar> < 2 ^ 31 \<Longrightarrow> \<bar>offsetY (canvas v')\<bar> < 2 ^ 31 \<Longrightarrow>
   \<bar>of_int (MAP_WIDTH * TILE_SIZE) * zoom (canvas v')\<bar> < 2 ^ 31 \<Longrightarrow>
   \<bar>of_int (MAP_HEIGHT * TILE_SIZE) * zoom (canvas v')\<bar> < 2 ^ 31 \<Longrightarrow>
     hscroll v' = spec_scrollbar (offsetX (canvas v')) (canvas_w (canvas v'))
                    (of_int (MAP_WIDTH * TILE_SIZE) * zoom (canvas v')) \<and>
     vscroll v' = spec_scrollbar (offsetY (canvas v')) (canvas_h (canvas v'))
                    (of_int (MAP_HEIGHT * TILE_SIZE) * zoom (canvas v')) \<and>
     step w (HScroll p) =
       w\<lparr>hscroll := (hscroll w)\<lparr>sb_value := p\<rparr>, canvas := (canvas w)\<lparr>offsetX := - of_int p\<rparr>\<rparr> \<and>
     step w (VScroll p) =
       w\<lparr>vscroll := (vscroll w)\<lparr>sb_value := p\<rparr>, canvas := (canvas w)\<lparr>offsetY := - of_int p\<rparr>\<rparr> \<and>
     hscroll (hscroll_callback w) = hscroll w \<and> vscroll (hscroll_callback w) = vscroll w \<and>
     hscroll (vscroll_callback w) = hscroll w \<and> vscroll (vscroll_callback w) = vscroll w"
proof -
  assume m: "v' = handle v (FL_MOUSEWHEEL mx my dy) \<or> (dragging (canvas v) \<and> v' = handle v (FL_DRAG x y))"
    and r: "\<bar>offsetX (canvas v')\<bar> < 2 ^ 31" "\<bar>offsetY (canvas v')\<bar> < 2 ^ 31"
      "\<bar>of_int (MAP_WIDTH * TILE_SIZE) * zoom (canvas v')\<bar> < 2 ^ 31"
      "\<bar>of_int (MAP_HEIGHT * TILE_SIZE) * zoom (canvas v')\<bar> < 2 ^ 31"
  from m obtain u where u: "v' = updateScrollbars u" "canvas u = canvas v'"
    using mutation_updates by blast
  from r have "hscroll (updateScrollbars u) =
      spec_scrollbar (offsetX (canvas u)) (canvas_w (canvas u))
        (of_int (MAP_WIDTH * TILE_SIZE) * zoom (canvas u))"
    and "vscroll (updateScrollbars u) =
      spec_scrollbar (offsetY (canvas u)) (canvas_h (canvas u))
        (of_int (MAP_HEIGHT * TILE_SIZE) * zoom (canvas u))"
    unfolding u(2) [symmetric] by (rule updateScrollbars_spec)+
  then have "hscroll v' = spec_scrollbar (offsetX (canvas v')) (canvas_w (canvas v'))
        (of_int (MAP_WIDTH * TILE_SIZE) * zoom (canvas v'))"
    and "vscroll v' = spec_scrollbar (offsetY (canvas v')) (canvas_h (canvas v'))
        (of_int (MAP_HEIGHT * TILE_SIZE) * zoom (canvas v'))"
    unfolding u(1) [symmetric] u(2) by blast+
  then show ?thesis
    by (simp add: hscroll_callback_def vscroll_callback_def)
qed

theorem scrollbars_follow_transform_witness:
  "dragging (canvas (handle init_view (FL_PUSH FL_LEFT_MOUSE 10 10))) \<and>
   \<bar>offsetX (canvas (handle (handle init_view (FL_PUSH FL_LEFT_MOUSE 10 10)) (FL_DRAG 7 4)))\<bar> < 2 ^ 31 \<and>
   \<bar>offsetY (canvas (handle (handle init_view (FL_PUSH FL_LEFT_MOUSE 10 10)) (FL_DRAG 7 4)))\<bar> < 2 ^ 31 \<and>
   \<bar>of_int (MAP_WIDTH * TILE_SIZE)
      * zoom (canvas (handle (handle init_view (FL_PUSH FL_LEFT_MOUSE 10 10)) (FL_DRAG 7 4)))\<bar> < 2 ^ 31 \<and>
   \<bar>of_int (MAP_HEIGHT * TILE_SIZE)
      * zoom (canvas (handle (handle init_view (FL_PUSH FL_LEFT_MOUSE 10 10)) (FL_DRAG 7 4)))\<bar> < 2 ^ 31 \<and>
   hscroll (handle (handle init_view (FL_PUSH FL_LEFT_MOUSE 10 10)) (FL_DRAG 7 4))
     = \<lparr>sb_value = 3, sb_size = 784, sb_first = 0, sb_total = 160000\<rparr> \<and>
   vscroll (handle (handle init_view (FL_PUSH FL_LEFT_MOUSE 10 10)) (FL_DRAG 7 4))
     = \<lparr>sb_value = 6, sb_size = 584, sb_first = 0, sb_total = 160000\<rparr> \<and>
   offsetX (canvas (step init_view (HScroll 40))) = - 40"
proof -
  define v where "v = handle init_view (FL_PUSH FL_LEFT_MOUSE 10 10)"
  define v' where "v' = handle v (FL_DRAG 7 4)"
  have d: "dragging (canvas v)"
    by (simp add: v_def)
  have c: "offsetX (canvas v') = - 3" "offsetY (canvas v') = - 6" "zoom (canvas v') = 1"
    "canvas_w (canvas v') = 784" "canvas_h (canvas v') = 584"
    by (simp_all add: v'_def v_def init_view_def init_canvas_def Let_def)
  have r: "\<bar>offsetX (canvas v')\<bar> < 2 ^ 31" "\<bar>offsetY (canvas v')\<bar> < 2 ^ 31"
    "\<bar>of_int (MAP_WIDTH * TILE_SIZE) * zoom (canvas v')\<bar> < 2 ^ 31"
    "\<bar>of_int (MAP_HEIGHT * TILE_SIZE) * zoom (canvas v')\<bar> < 2 ^ 31"
    by (simp_all add: c MAP_WIDTH_def MAP_HEIGHT_def TILE_SIZE_def)
  have m: "v' = handle v (FL_MOUSEWHEEL 0 0 0) \<or> (dragging (canvas v) \<and> v' = handle v (FL_DRAG 7 4))"
    using d by (simp add: v'_def)
  from scrollbars_follow_transform [OF m r, of init_view 40]
  have "hscroll v' = spec_scrollbar (- 3) 784 (of_int (MAP_WIDTH * TILE_SIZE) * 1)"
    and "vscroll v' = spec_scrollbar (- 6) 584 (of_int (MAP_HEIGHT * TILE_SIZE) * 1)"
    and "offsetX (canvas (step init_view (HScroll 40))) = - 40"
    by (simp_all add: c)
  then have "hscroll v' = \<lparr>sb_value = 3, sb_size = 784, sb_first = 0, sb_total = 160000\<rparr>"
    and "vscroll v' = \<lparr>sb_value = 6, sb_size = 584, sb_first = 0, sb_total = 160000\<rparr>"
    and "offsetX (canvas (step init_view (HScroll 40))) = - 40"
    by (simp_all add: spec_scrollbar_def trunc_zero_def MAP_WIDTH_def MAP_HEIGHT_def TILE_SIZE_def)
  with d r show ?thesis
    unfolding v'_def v_def by blast
qed

end
